theory Spec2Isabelle
  imports Main "HOL-Library.Sublist"
begin

section \<open>Go values\<close>

text \<open>
  A Go \<open>[]byte\<close> is a list of bytes or \<open>nil\<close>; the block service tests \<open>data != nil\<close>,
  so the nil slice is kept apart from the empty one. A \<open>char\<close> is one byte, as in a Go
  \<open>string\<close>. Go's \<open>int\<close> and \<open>int64\<close> are modelled by \<open>int\<close>: the only arithmetic on
  them is \<open>Version + 1\<close>, and a version number never exceeds the length of the slice
  that holds it (see the section on the version ledger), so it cannot wrap.
\<close>

type_synonym bytes = string
type_synonym slice = "bytes option"

datatype error =
    ErrNew string         \<comment> \<open>\<open>errors.New(msg)\<close>, \<open>fmt.Errorf\<close> without \<open>%w\<close>\<close>
  | ErrNotExist string    \<comment> \<open>an error of package \<open>os\<close> for which \<open>os.IsNotExist\<close> holds\<close>
  | ErrOS string string   \<comment> \<open>any other error of package \<open>os\<close>: the operation and its path\<close>
  | ErrWrap string error  \<comment> \<open>\<open>fmt.Errorf("msg: %w", err)\<close>\<close>
  | Panic string          \<comment> \<open>a run-time panic\<close>

section \<open>package craq: the data model\<close>

text \<open>
  \<open>Node\<close>, \<open>BlockVersion\<close>, \<open>Block\<close> and \<open>Chain\<close> are the structs of \<open>craq.go\<close>. Every \<open>*Node\<close>
  the chain holds is an element of \<open>c.nodes\<close>, so a node pointer is the index of the node
  in that slice and \<open>nil\<close> is \<open>None\<close>.

  \<open>c.blocks\<close> maps a block id to a \<open>*Block\<close>, and the goroutine that \<open>Write\<close> starts keeps
  the pointer after \<open>Delete\<close> has dropped the map entry. The model therefore has a store:
  \<open>blocks\<close> maps an id to an address, \<open>heap\<close> maps an address to the block object, and the
  addresses below \<open>next_addr\<close> are the allocated ones. \<open>pending\<close> lists the goroutines that
  were started and have not run yet, each with the two variables it captured: the block
  pointer and \<open>nextVersion\<close>.
\<close>

record Node =
  Node_ID :: string
  Address :: string
  IsHead :: bool
  IsTail :: bool
  NextNode :: "nat option"
  PrevNode :: "nat option"

record BlockVersion =
  Version :: int
  Data :: slice
  Metadata :: slice
  Timestamp :: int
  Clean :: bool

record Block =
  Block_ID :: string
  Versions :: "BlockVersion list"

record Chain =
  chainLength :: int
  replicaFactor :: int
  nodes :: "Node list"
  head :: "nat option"
  tail :: "nat option"
  blocks :: "string \<Rightarrow> nat option"
  heap :: "nat \<Rightarrow> Block"
  next_addr :: nat
  pending :: "(nat \<times> int) list"

section \<open>package craq: the operations\<close>

definition NewChain :: "int \<Rightarrow> int \<Rightarrow> error + Chain" where
  "NewChain cl rf =
     (if cl \<le> 0 then Inl (ErrNew ''chain length must be greater than zero'')
      else if rf \<le> 0 \<or> rf > cl then
        Inl (ErrNew ''replica factor must be greater than zero and less than or equal to chain length'')
      else Inr \<lparr>chainLength = cl, replicaFactor = rf, nodes = [], head = None, tail = None,
                blocks = (\<lambda>_. None), heap = (\<lambda>_. \<lparr>Block_ID = [], Versions = []\<rparr>),
                next_addr = 0, pending = []\<rparr>)"

text \<open>
  \<open>AddNode\<close>: the only check is the length of \<open>c.nodes\<close> against \<open>c.chainLength\<close>. With a
  node already present, \<open>c.tail\<close> is dereferenced; it is never nil on a chain built by
  \<open>NewChain\<close> and \<open>AddNode\<close>, and the model panics where it would be.
\<close>

definition AddNode :: "Chain \<Rightarrow> string \<Rightarrow> string \<Rightarrow> Chain \<times> error option" where
  "AddNode c ident address =
     (if int (length (nodes c)) \<ge> chainLength c then
        (c, Some (ErrNew ''chain is already at maximum length''))
      else
        let node = \<lparr>Node_ID = ident, Address = address, IsHead = False, IsTail = False,
                    NextNode = None, PrevNode = None\<rparr>;
            n = length (nodes c)
        in if n = 0 then
             (c\<lparr>head := Some n, tail := Some n,
                 nodes := nodes c @ [node\<lparr>IsHead := True, IsTail := True\<rparr>]\<rparr>, None)
           else
             (case tail c of
                None \<Rightarrow> (c, Some (Panic ''nil pointer dereference''))
              | Some t \<Rightarrow>
                  (c\<lparr>tail := Some n,
                      nodes := (nodes c)[t := (nodes c ! t)\<lparr>IsTail := False, NextNode := Some n\<rparr>]
                               @ [node\<lparr>IsTail := True, PrevNode := Some t\<rparr>]\<rparr>, None)))"

text \<open>\<open>Initialize\<close> reads the chain and changes nothing; it has no flag to set.\<close>

definition Initialize :: "Chain \<Rightarrow> Chain \<times> error option" where
  "Initialize c =
     (if length (nodes c) = 0 then (c, Some (ErrNew ''cannot initialize an empty chain''))
      else (c, None))"

text \<open>
  \<open>Write\<close>. \<open>now\<close> is the value of \<open>time.Now().UnixNano()\<close>. The goroutine is not run here:
  it is appended to \<open>pending\<close>. It first sleeps and then needs \<open>block.mu\<close>, which \<open>Write\<close>
  holds until it returns.
\<close>

definition getOrCreate :: "Chain \<Rightarrow> string \<Rightarrow> nat \<times> Chain" where
  "getOrCreate c blockID =
     (case blocks c blockID of
        Some a \<Rightarrow> (a, c)
      | None \<Rightarrow>
          (next_addr c,
           c\<lparr>heap := (heap c)(next_addr c := \<lparr>Block_ID = blockID, Versions = []\<rparr>),
              blocks := (blocks c)(blockID \<mapsto> next_addr c),
              next_addr := Suc (next_addr c)\<rparr>))"

definition nextVersionOf :: "Block \<Rightarrow> int" where
  "nextVersionOf block =
     (if length (Versions block) > 0 then Version (last (Versions block)) + 1 else 1)"

definition Write :: "Chain \<Rightarrow> int \<Rightarrow> string \<Rightarrow> slice \<Rightarrow> slice \<Rightarrow> Chain \<times> error option" where
  "Write c now blockID data metadata =
     (if head c = None then (c, Some (ErrNew ''chain has no head node''))
      else
        let (a, c1) = getOrCreate c blockID;
            block = heap c1 a;
            nextVersion = nextVersionOf block;
            version = \<lparr>Version = nextVersion, Data = data, Metadata = metadata,
                       Timestamp = now, Clean = False\<rparr>
        in (c1\<lparr>heap := (heap c1)(a := block\<lparr>Versions := Versions block @ [version]\<rparr>),
                pending := pending c1 @ [(a, nextVersion)]\<rparr>, None))"

text \<open>
  The body of the goroutine: the first version with the captured number becomes clean.
  \<open>run_pending c i\<close> is the scheduler running the \<open>i\<close>-th goroutine that is waiting.
\<close>

fun markClean :: "int \<Rightarrow> BlockVersion list \<Rightarrow> BlockVersion list" where
  "markClean nv [] = []"
| "markClean nv (v # vs) =
     (if Version v = nv then v\<lparr>Clean := True\<rparr> # vs else v # markClean nv vs)"

definition goroutine :: "Chain \<Rightarrow> nat \<times> int \<Rightarrow> Chain" where
  "goroutine c task =
     (case task of (a, nv) \<Rightarrow>
        c\<lparr>heap := (heap c)(a := (heap c a)\<lparr>Versions := markClean nv (Versions (heap c a))\<rparr>)\<rparr>)"

definition run_pending :: "Chain \<Rightarrow> nat \<Rightarrow> Chain" where
  "run_pending c i =
     (if i < length (pending c) then
        (goroutine c (pending c ! i))\<lparr>pending := take i (pending c) @ drop (Suc i) (pending c)\<rparr>
      else c)"

text \<open>
  \<open>Read\<close>: the loop runs from the last version down to the first and stops at the first
  clean one; with none, the oldest version is returned.
\<close>

fun latestClean :: "BlockVersion list \<Rightarrow> BlockVersion option" where
  "latestClean [] = None"
| "latestClean (v # vs) = (if Clean v then Some v else latestClean vs)"

definition Read :: "Chain \<Rightarrow> string \<Rightarrow> error + (slice \<times> slice)" where
  "Read c blockID =
     (case blocks c blockID of
        None \<Rightarrow> Inl (ErrNew (''block '' @ blockID @ '' not found''))
      | Some a \<Rightarrow>
          (case Versions (heap c a) of
             [] \<Rightarrow> Inl (ErrNew (''block '' @ blockID @ '' has no versions''))
           | v0 # vs \<Rightarrow>
               (case latestClean (rev (v0 # vs)) of
                  Some v \<Rightarrow> Inr (Data v, Metadata v)
                | None \<Rightarrow> Inr (Data v0, Metadata v0))))"

definition Delete :: "Chain \<Rightarrow> string \<Rightarrow> Chain \<times> error option" where
  "Delete c blockID =
     (case blocks c blockID of
        None \<Rightarrow> (c, Some (ErrNew (''block '' @ blockID @ '' not found'')))
      | Some a \<Rightarrow> (c\<lparr>blocks := (blocks c)(blockID := None)\<rparr>, None))"

section \<open>The standard library the storage package calls\<close>

subsection \<open>path/filepath on Unix\<close>

text \<open>
  \<open>filepath.Join\<close> ignores the empty elements before the first non-empty one, joins the
  rest with \<open>/\<close> and cleans the result; with no non-empty element it returns the empty
  string. \<open>filepath.Clean\<close> drops empty and \<open>.\<close> elements, cancels an inner \<open>..\<close> against
  the element before it, drops a \<open>..\<close> at the root and keeps a leading one on a relative
  path; the empty result is \<open>.\<close>.
\<close>

fun splitSlash :: "string \<Rightarrow> string list" where
  "splitSlash [] = [[]]"
| "splitSlash (c # cs) =
     (if c = CHR ''/'' then [] # splitSlash cs
      else (case splitSlash cs of [] \<Rightarrow> [[c]] | x # xs \<Rightarrow> (c # x) # xs))"

fun joinSlash :: "string list \<Rightarrow> string" where
  "joinSlash [] = []"
| "joinSlash [x] = x"
| "joinSlash (x # y # ys) = x @ CHR ''/'' # joinSlash (y # ys)"

definition cleanStep :: "bool \<Rightarrow> string list \<Rightarrow> string \<Rightarrow> string list" where
  "cleanStep rooted st el =
     (if el = [] \<or> el = ''.'' then st
      else if el = ''..'' then
        (case st of
           [] \<Rightarrow> if rooted then [] else [''..'']
         | t # ts \<Rightarrow> if t = ''..'' then ''..'' # st else ts)
      else el # st)"

definition filepath_Clean :: "string \<Rightarrow> string" where
  "filepath_Clean p =
     (case p of
        [] \<Rightarrow> ''.''
      | c # _ \<Rightarrow>
          let rooted = (c = CHR ''/'');
              body = joinSlash (rev (foldl (cleanStep rooted) [] (splitSlash p)))
          in if rooted then CHR ''/'' # body else if body = [] then ''.'' else body)"

definition filepath_Join :: "string list \<Rightarrow> string" where
  "filepath_Join elems =
     (case dropWhile (\<lambda>e. e = []) elems of
        [] \<Rightarrow> []
      | es \<Rightarrow> filepath_Clean (joinSlash es))"

subsection \<open>The file system\<close>

text \<open>
  The disk is a map from paths to file contents. Which system calls fail is the
  environment's choice, so the disk carries it: \<open>write_fails p\<close> says that opening \<open>p\<close>
  for writing fails (a missing or read-only directory, a path that is a directory),
  leaving \<open>p\<close> as it was; \<open>read_fails\<close> and \<open>remove_fails\<close> likewise for reading an
  existing file and unlinking one. A path with no file gives the not-exist error.
\<close>

record FS =
  files :: "string \<Rightarrow> bytes option"
  write_fails :: "string \<Rightarrow> bool"
  read_fails :: "string \<Rightarrow> bool"
  remove_fails :: "string \<Rightarrow> bool"

definition content :: "slice \<Rightarrow> bytes" where
  "content d = (case d of None \<Rightarrow> [] | Some b \<Rightarrow> b)"

definition ioutil_WriteFile :: "FS \<Rightarrow> string \<Rightarrow> slice \<Rightarrow> FS \<times> error option" where
  "ioutil_WriteFile fs p d =
     (if write_fails fs p then (fs, Some (ErrOS ''open'' p))
      else (fs\<lparr>files := (files fs)(p \<mapsto> content d)\<rparr>, None))"

definition ioutil_ReadFile :: "FS \<Rightarrow> string \<Rightarrow> error + slice" where
  "ioutil_ReadFile fs p =
     (case files fs p of
        None \<Rightarrow> Inl (ErrNotExist p)
      | Some b \<Rightarrow> if read_fails fs p then Inl (ErrOS ''read'' p) else Inr (Some b))"

definition os_Remove :: "FS \<Rightarrow> string \<Rightarrow> FS \<times> error option" where
  "os_Remove fs p =
     (case files fs p of
        None \<Rightarrow> (fs, Some (ErrNotExist p))
      | Some _ \<Rightarrow>
          if remove_fails fs p then (fs, Some (ErrOS ''remove'' p))
          else (fs\<lparr>files := (files fs)(p := None)\<rparr>, None))"

definition os_IsNotExist :: "error option \<Rightarrow> bool" where
  "os_IsNotExist e = (case e of Some (ErrNotExist _) \<Rightarrow> True | _ \<Rightarrow> False)"

definition os_Stat :: "FS \<Rightarrow> string \<Rightarrow> error option" where
  "os_Stat fs p = (case files fs p of None \<Rightarrow> Some (ErrNotExist p) | Some _ \<Rightarrow> None)"

section \<open>package storage\<close>

text \<open>
  \<open>cache\<close> is the Go map \<open>map[string][]byte\<close>: \<open>None\<close> is a missing key and \<open>Some None\<close> a
  key whose value is the nil slice. \<open>disk\<close> is the file system the storage writes to.
\<close>

record LocalStorage =
  dataPath :: string
  maxSizeGB :: int
  cache :: "string \<Rightarrow> slice option"
  disk :: FS

definition NewLocalStorage :: "FS \<Rightarrow> string \<Rightarrow> int \<Rightarrow> error + LocalStorage" where
  "NewLocalStorage fs dp sz =
     (if dp = [] then Inl (ErrNew ''data path cannot be empty'')
      else if sz \<le> 0 then Inl (ErrNew ''max size must be greater than zero'')
      else Inr \<lparr>dataPath = dp, maxSizeGB = sz, cache = (\<lambda>_. None), disk = fs\<rparr>)"

text \<open>
  \<open>blockID[:2]\<close> panics when the string has fewer than two bytes; \<open>sliceTo\<close> is that
  slice expression, and \<open>getBlockPath\<close> returns the panic if it happens.
\<close>

definition sliceTo :: "string \<Rightarrow> nat \<Rightarrow> error + string" where
  "sliceTo s n =
     (if n \<le> length s then Inr (take n s) else Inl (Panic ''slice bounds out of range''))"

definition padBlockID :: "string \<Rightarrow> string" where
  "padBlockID blockID = (if length blockID < 2 then ''00'' @ blockID else blockID)"

definition shardOf :: "string \<Rightarrow> error + string" where
  "shardOf blockID = sliceTo (padBlockID blockID) 2"

definition getBlockPath :: "LocalStorage \<Rightarrow> string \<Rightarrow> error + string" where
  "getBlockPath s blockID =
     (case shardOf blockID of
        Inl e \<Rightarrow> Inl e
      | Inr shard \<Rightarrow> Inr (filepath_Join [dataPath s, shard, padBlockID blockID]))"

definition getMetadataPath :: "LocalStorage \<Rightarrow> string \<Rightarrow> error + string" where
  "getMetadataPath s blockID =
     (case getBlockPath s blockID of Inl e \<Rightarrow> Inl e | Inr p \<Rightarrow> Inr (p @ ''.meta''))"

text \<open>
  \<open>WriteBlock\<close>: the data file, then the sidecar when \<open>metadata\<close> is not nil. When the
  sidecar cannot be written, \<open>os.Remove(blockPath)\<close> is called and its result dropped.
\<close>

definition LocalStorage_WriteBlock ::
  "LocalStorage \<Rightarrow> string \<Rightarrow> slice \<Rightarrow> slice \<Rightarrow> LocalStorage \<times> error option" where
  "LocalStorage_WriteBlock s blockID d metadata =
     (case getBlockPath s blockID of
        Inl e \<Rightarrow> (s, Some e)
      | Inr blockPath \<Rightarrow>
          (case ioutil_WriteFile (disk s) blockPath d of
             (fs1, Some e) \<Rightarrow> (s\<lparr>disk := fs1\<rparr>, Some (ErrWrap ''failed to write block data'' e))
           | (fs1, None) \<Rightarrow>
               (case metadata of
                  None \<Rightarrow> (s\<lparr>disk := fs1, cache := (cache s)(blockID \<mapsto> d)\<rparr>, None)
                | Some _ \<Rightarrow>
                    (case getMetadataPath s blockID of
                       Inl e \<Rightarrow> (s\<lparr>disk := fs1\<rparr>, Some e)
                     | Inr metaPath \<Rightarrow>
                         (case ioutil_WriteFile fs1 metaPath metadata of
                            (fs2, Some e) \<Rightarrow>
                              (s\<lparr>disk := fst (os_Remove fs2 blockPath)\<rparr>,
                               Some (ErrWrap ''failed to write block metadata'' e))
                          | (fs2, None) \<Rightarrow>
                              (s\<lparr>disk := fs2, cache := (cache s)(blockID \<mapsto> d)\<rparr>, None))))))"

text \<open>\<open>ReadBlockMetadata\<close> returns the triple \<open>(exists, metadata, err)\<close>.\<close>

definition LocalStorage_ReadBlockMetadata ::
  "LocalStorage \<Rightarrow> string \<Rightarrow> bool \<times> slice \<times> error option" where
  "LocalStorage_ReadBlockMetadata s blockID =
     (case getMetadataPath s blockID of
        Inl e \<Rightarrow> (False, None, Some e)
      | Inr metaPath \<Rightarrow>
          if os_IsNotExist (os_Stat (disk s) metaPath) then (False, None, None)
          else (case ioutil_ReadFile (disk s) metaPath of
                  Inl e \<Rightarrow> (True, None, Some (ErrWrap ''failed to read block metadata'' e))
                | Inr m \<Rightarrow> (True, m, None)))"

definition LocalStorage_ReadBlock ::
  "LocalStorage \<Rightarrow> string \<Rightarrow> LocalStorage \<times> (error + slice \<times> slice)" where
  "LocalStorage_ReadBlock s blockID =
     (case cache s blockID of
        Some d \<Rightarrow>
          (case LocalStorage_ReadBlockMetadata s blockID of
             (_, _, Some e) \<Rightarrow> (s, Inl e)
           | (hasMetadata, metadata, None) \<Rightarrow>
               if \<not> hasMetadata then (s, Inl (ErrNew (''block '' @ blockID @ '' not found'')))
               else (s, Inr (d, metadata)))
      | None \<Rightarrow>
          (case getBlockPath s blockID of
             Inl e \<Rightarrow> (s, Inl e)
           | Inr blockPath \<Rightarrow>
               if os_IsNotExist (os_Stat (disk s) blockPath) then
                 (s, Inl (ErrNew (''block '' @ blockID @ '' not found'')))
               else
                 (case ioutil_ReadFile (disk s) blockPath of
                    Inl e \<Rightarrow> (s, Inl (ErrWrap ''failed to read block data'' e))
                  | Inr d \<Rightarrow>
                      (case LocalStorage_ReadBlockMetadata s blockID of
                         (_, _, Some e) \<Rightarrow> (s, Inl e)
                       | (_, metadata, None) \<Rightarrow>
                           (s\<lparr>cache := (cache s)(blockID \<mapsto> d)\<rparr>, Inr (d, metadata))))))"

definition LocalStorage_DeleteBlock :: "LocalStorage \<Rightarrow> string \<Rightarrow> LocalStorage \<times> error option" where
  "LocalStorage_DeleteBlock s blockID =
     (case getBlockPath s blockID of
        Inl e \<Rightarrow> (s, Some e)
      | Inr blockPath \<Rightarrow>
          (case getMetadataPath s blockID of
             Inl e \<Rightarrow> (s, Some e)
           | Inr metaPath \<Rightarrow>
               (case os_Remove (disk s) blockPath of (fs1, err1) \<Rightarrow>
                  if err1 \<noteq> None \<and> \<not> os_IsNotExist err1 then
                    (s\<lparr>disk := fs1\<rparr>, Some (ErrWrap ''failed to delete block data'' (the err1)))
                  else
                    (case os_Remove fs1 metaPath of (fs2, err2) \<Rightarrow>
                       if err2 \<noteq> None \<and> \<not> os_IsNotExist err2 then
                         (s\<lparr>disk := fs2\<rparr>,
                          Some (ErrWrap ''failed to delete block metadata'' (the err2)))
                       else (s\<lparr>disk := fs2, cache := (cache s)(blockID := None)\<rparr>, None)))))"

definition Flush :: "LocalStorage \<Rightarrow> LocalStorage \<times> error option" where
  "Flush s = (s\<lparr>cache := (\<lambda>_. None)\<rparr>, None)"

subsection \<open>Block metadata\<close>

text \<open>
  \<open>CalculateChecksum\<close> is \<open>sha256.Sum256\<close> of the standard library; the digest function
  is the parameter \<open>sha256\<close> of the model. \<open>hex.EncodeToString\<close> and the output of
  \<open>json.Marshal\<close> for the struct (its field tags, decimal integers) are written out.
\<close>

record BlockMetadata =
  Checksum :: string
  Size :: int
  Meta_Version :: int
  CreatedAt :: int
  LastModified :: int

definition hexDigit :: "nat \<Rightarrow> char" where
  "hexDigit n = ''0123456789abcdef'' ! (n mod 16)"

fun hex_EncodeToString :: "bytes \<Rightarrow> string" where
  "hex_EncodeToString [] = []"
| "hex_EncodeToString (b # bs) =
     hexDigit (of_char b div 16) # hexDigit (of_char b mod 16) # hex_EncodeToString bs"

definition CalculateChecksum :: "(bytes \<Rightarrow> bytes) \<Rightarrow> slice \<Rightarrow> bytes" where
  "CalculateChecksum sha256 d = sha256 (content d)"

definition NewBlockMetadata :: "(bytes \<Rightarrow> bytes) \<Rightarrow> slice \<Rightarrow> int \<Rightarrow> int \<Rightarrow> BlockMetadata" where
  "NewBlockMetadata sha256 d version createdAt =
     \<lparr>Checksum = hex_EncodeToString (CalculateChecksum sha256 d),
      Size = int (length (content d)),
      Meta_Version = version,
      CreatedAt = createdAt,
      LastModified = createdAt\<rparr>"

function showNat :: "nat \<Rightarrow> string" where
  "showNat n =
     (if n < 10 then [''0123456789'' ! n]
      else showNat (n div 10) @ [''0123456789'' ! (n mod 10)])"
  by pat_completeness auto
termination
  by (relation "measure id") auto

definition showInt :: "int \<Rightarrow> string" where
  "showInt i = (if i < 0 then CHR ''-'' # showNat (nat (- i)) else showNat (nat i))"

definition json_Marshal :: "BlockMetadata \<Rightarrow> bytes" where
  \<open>json_Marshal m =
     ''{"checksum":"'' @ Checksum m @
     ''","size":'' @ showInt (Size m) @
     '',"version":'' @ showInt (Meta_Version m) @
     '',"created_at":'' @ showInt (CreatedAt m) @
     '',"last_modified":'' @ showInt (LastModified m) @ ''}''\<close>

section \<open>package block\<close>

text \<open>
  \<open>craqChain\<close> is a \<open>*craq.Chain\<close> that may be nil. The service owns the chain and the
  local storage, so its operations return both as they leave them.
\<close>

record Service =
  localStorage :: LocalStorage
  craqChain :: "Chain option"

definition NewService :: "LocalStorage option \<Rightarrow> Chain option \<Rightarrow> error + Service" where
  "NewService ls ch =
     (case ls of
        None \<Rightarrow> Inl (ErrNew ''localStorage cannot be nil'')
      | Some l \<Rightarrow> Inr \<lparr>localStorage = l, craqChain = ch\<rparr>)"

text \<open>
  \<open>WriteBlock\<close>. The metadata is built first, with the literal \<open>1\<close> as its version;
  \<open>now\<close> is the clock read here and \<open>now'\<close> the one read inside \<open>Chain.Write\<close>.
  \<open>json.Marshal\<close> does not fail on this struct, so its error branch is not modelled.
\<close>

definition Service_WriteBlock ::
  "(bytes \<Rightarrow> bytes) \<Rightarrow> int \<Rightarrow> int \<Rightarrow> Service \<Rightarrow> string \<Rightarrow> slice \<Rightarrow> Service \<times> error option" where
  "Service_WriteBlock sha256 now now' s blockID d =
     (let metadata = NewBlockMetadata sha256 d 1 now;
          metadataBytes = Some (json_Marshal metadata)
      in case (case craqChain s of
                 None \<Rightarrow> (None, None)
               | Some c \<Rightarrow>
                   (case Write c now' blockID d metadataBytes of (c', err) \<Rightarrow> (Some c', err))) of
           (ch, Some e) \<Rightarrow> (s\<lparr>craqChain := ch\<rparr>, Some (ErrWrap ''failed to replicate block'' e))
         | (ch, None) \<Rightarrow>
             (case LocalStorage_WriteBlock (localStorage s) blockID d metadataBytes of
                (ls, Some e) \<Rightarrow>
                  (s\<lparr>localStorage := ls, craqChain := ch\<rparr>,
                   Some (ErrWrap ''failed to write block to local storage'' e))
              | (ls, None) \<Rightarrow> (s\<lparr>localStorage := ls, craqChain := ch\<rparr>, None)))"

text \<open>
  \<open>ReadBlock\<close> takes the chain's answer when it is no error and the data is not nil,
  and the local storage's otherwise.
\<close>

definition chainData :: "Service \<Rightarrow> string \<Rightarrow> bytes option" where
  "chainData s blockID =
     (case craqChain s of
        None \<Rightarrow> None
      | Some c \<Rightarrow> (case Read c blockID of Inl _ \<Rightarrow> None | Inr (d, _) \<Rightarrow> d))"

definition Service_ReadBlock :: "Service \<Rightarrow> string \<Rightarrow> Service \<times> (error + slice)" where
  "Service_ReadBlock s blockID =
     (case chainData s blockID of
        Some d \<Rightarrow> (s, Inr (Some d))
      | None \<Rightarrow>
          (case LocalStorage_ReadBlock (localStorage s) blockID of
             (ls, Inl e) \<Rightarrow> (s\<lparr>localStorage := ls\<rparr>, Inl (ErrWrap ''failed to read block'' e))
           | (ls, Inr (d, _)) \<Rightarrow> (s\<lparr>localStorage := ls\<rparr>, Inr d)))"

text \<open>\<open>DeleteBlock\<close> returns as soon as the chain's \<open>Delete\<close> reports an error.\<close>

definition Service_DeleteBlock :: "Service \<Rightarrow> string \<Rightarrow> Service \<times> error option" where
  "Service_DeleteBlock s blockID =
     (case (case craqChain s of
              None \<Rightarrow> (None, None)
            | Some c \<Rightarrow> (case Delete c blockID of (c', err) \<Rightarrow> (Some c', err))) of
        (ch, Some e) \<Rightarrow>
          (s\<lparr>craqChain := ch\<rparr>, Some (ErrWrap ''failed to delete block from replication chain'' e))
      | (ch, None) \<Rightarrow>
          (case LocalStorage_DeleteBlock (localStorage s) blockID of
             (ls, Some e) \<Rightarrow>
               (s\<lparr>localStorage := ls, craqChain := ch\<rparr>,
                Some (ErrWrap ''failed to delete block from local storage'' e))
           | (ls, None) \<Rightarrow> (s\<lparr>localStorage := ls, craqChain := ch\<rparr>, None)))"

section \<open>Well-formed states and example states\<close>

text \<open>
  On a chain built by \<open>NewChain\<close> and \<open>AddNode\<close> the head is the first node and the tail
  the last one.
\<close>

definition wf_topology :: "Chain \<Rightarrow> bool" where
  "wf_topology c =
     (if nodes c = [] then head c = None \<and> tail c = None
      else head c = Some 0 \<and> tail c = Some (length (nodes c) - 1))"

text \<open>The chain \<open>NewChain(2, 1)\<close> returns, and the same after one \<open>AddNode\<close>.\<close>

definition empty_chain :: Chain where
  "empty_chain =
     \<lparr>chainLength = 2, replicaFactor = 1, nodes = [], head = None, tail = None,
      blocks = (\<lambda>_. None), heap = (\<lambda>_. \<lparr>Block_ID = [], Versions = []\<rparr>),
      next_addr = 0, pending = []\<rparr>"

definition one_node_chain :: Chain where
  "one_node_chain = fst (AddNode empty_chain ''node-1'' ''10.0.0.1:7000'')"


definition two_writes :: Chain where
  "two_writes =
     fst (Write (fst (Write one_node_chain 5 ''blk'' (Some ''old'') (Some ''m1'')))
            6 ''blk'' (Some ''new'') (Some ''m2''))"

section \<open>The version ledger: invariant and steps\<close>

text \<open>
  \<open>numbered vs\<close>: the version numbers of the list are \<open>1, 2, \<dots>, length vs\<close>.
  \<open>ledger_ok\<close> is the invariant of the store: every allocated block is numbered, and
  the map points to allocated blocks only. \<open>payload\<close> is what of a version may never
  change (everything but the clean flag). \<open>versions_of\<close> is the version list of a
  block id, empty when the map has no entry.
\<close>

definition numbered :: "BlockVersion list \<Rightarrow> bool" where
  "numbered vs = (map Version vs = [1..int (length vs)])"

definition ledger_ok :: "Chain \<Rightarrow> bool" where
  "ledger_ok c =
     ((\<forall>a<next_addr c. numbered (Versions (heap c a))) \<and>
      (\<forall>blockID a. blocks c blockID = Some a \<longrightarrow> a < next_addr c))"

definition payload :: "BlockVersion \<Rightarrow> int \<times> slice \<times> slice \<times> int" where
  "payload v = (Version v, Data v, Metadata v, Timestamp v)"

definition versions_of :: "Chain \<Rightarrow> string \<Rightarrow> BlockVersion list" where
  "versions_of c blockID =
     (case blocks c blockID of None \<Rightarrow> [] | Some a \<Rightarrow> Versions (heap c a))"

text \<open>
  The operations that can touch a chain: the methods that take the write lock, \<open>Read\<close>
  (as \<open>GetStats\<close>, \<open>IsHeadNode\<close>, \<open>IsTailNode\<close> and \<open>GetNodeCount\<close>, it takes the read lock
  and assigns nothing), and a waiting goroutine being run.
\<close>

datatype chain_op =
    OpAddNode string string
  | OpInitialize
  | OpWrite int string slice slice
  | OpRead string
  | OpDelete string
  | OpGoroutine nat

fun chain_step :: "Chain \<Rightarrow> chain_op \<Rightarrow> Chain" where
  "chain_step c (OpAddNode i a) = fst (AddNode c i a)"
| "chain_step c OpInitialize = fst (Initialize c)"
| "chain_step c (OpWrite now blockID d m) = fst (Write c now blockID d m)"
| "chain_step c (OpRead blockID) = c"
| "chain_step c (OpDelete blockID) = fst (Delete c blockID)"
| "chain_step c (OpGoroutine i) = run_pending c i"

section \<open>Example disks and stores\<close>

text \<open>
  A disk on which nothing fails, and the store \<open>NewLocalStorage\<close> returns for it. On
  \<open>readonly_shard_disk\<close> the shard directory \<open>/data/ab\<close> holds the data file of block
  \<open>abc\<close> and accepts no new entry and no unlinking, as a directory without write
  permission does: the existing file can be rewritten, its sidecar cannot be created,
  and the file cannot be removed. On \<open>blocked_sidecar_disk\<close> only the sidecar's path
  cannot be opened.
\<close>

definition plain_disk :: FS where
  "plain_disk = \<lparr>files = (\<lambda>_. None), write_fails = (\<lambda>_. False), read_fails = (\<lambda>_. False),
                  remove_fails = (\<lambda>_. False)\<rparr>"

definition store0 :: LocalStorage where
  "store0 = \<lparr>dataPath = ''/data'', maxSizeGB = 1, cache = (\<lambda>_. None), disk = plain_disk\<rparr>"

definition readonly_shard_disk :: FS where
  "readonly_shard_disk =
     \<lparr>files = [''/data/ab/abc'' \<mapsto> ''v0''],
      write_fails = (\<lambda>p. p = ''/data/ab/abc.meta''),
      read_fails = (\<lambda>_. False),
      remove_fails = (\<lambda>p. p = ''/data/ab/abc'')\<rparr>"

definition readonly_shard_store :: LocalStorage where
  "readonly_shard_store =
     \<lparr>dataPath = ''/data'', maxSizeGB = 1, cache = (\<lambda>_. None), disk = readonly_shard_disk\<rparr>"

definition blocked_sidecar_disk :: FS where
  "blocked_sidecar_disk =
     \<lparr>files = (\<lambda>_. None),
      write_fails = (\<lambda>p. p = ''/data/ab/abc.meta''),
      read_fails = (\<lambda>_. False),
      remove_fails = (\<lambda>_. False)\<rparr>"

definition blocked_sidecar_store :: LocalStorage where
  "blocked_sidecar_store =
     \<lparr>dataPath = ''/data'', maxSizeGB = 1, cache = (\<lambda>_. None), disk = blocked_sidecar_disk\<rparr>"

text \<open>The path \<open>getBlockPath\<close> computes when the slice expression does not panic.\<close>

definition blockPathOf :: "LocalStorage \<Rightarrow> string \<Rightarrow> string" where
  "blockPathOf s blockID =
     filepath_Join [dataPath s, take 2 (padBlockID blockID), padBlockID blockID]"

section \<open>Example services and runs of the block service\<close>

text \<open>
  The digest plays no part in what is proved below; the examples fix one that returns
  the single byte \<open>d\<close>. \<open>demo_service\<close> is a service over the empty store and the
  one-node chain. \<open>restarted_service\<close> is a service right after a restart: the disk
  holds block \<open>abc\<close> from the previous run, and the chain, which lives in memory, is new.
\<close>

definition stub_digest :: "bytes \<Rightarrow> bytes" where
  "stub_digest b = ''d''"

definition demo_service :: Service where
  "demo_service = \<lparr>localStorage = store0, craqChain = Some one_node_chain\<rparr>"

definition used_disk :: FS where
  "used_disk = plain_disk\<lparr>files := [''/data/ab/abc'' \<mapsto> ''v0'', ''/data/ab/abc.meta'' \<mapsto> ''m0'']\<rparr>"

definition restarted_service :: Service where
  "restarted_service =
     \<lparr>localStorage = \<lparr>dataPath = ''/data'', maxSizeGB = 1, cache = (\<lambda>_. None), disk = used_disk\<rparr>,
      craqChain = Some one_node_chain\<rparr>"

text \<open>
  \<open>WriteBlock_seq\<close> is a caller that writes one block id again and again, each call with
  its two clock readings and its payload, and stops at the first error.
  \<open>chain_metadata\<close> reads off the chain, for each version of a block, its number and the
  metadata bytes stored with it.
\<close>

fun WriteBlock_seq ::
  "(bytes \<Rightarrow> bytes) \<Rightarrow> Service \<Rightarrow> string \<Rightarrow> (int \<times> int \<times> slice) list \<Rightarrow> Service option" where
  "WriteBlock_seq sha256 s blockID [] = Some s"
| "WriteBlock_seq sha256 s blockID ((now, now', d) # ws) =
     (case Service_WriteBlock sha256 now now' s blockID d of
        (s', None) \<Rightarrow> WriteBlock_seq sha256 s' blockID ws
      | (s', Some e) \<Rightarrow> None)"

definition chain_metadata :: "Service option \<Rightarrow> string \<Rightarrow> (int \<times> slice) list" where
  "chain_metadata r blockID =
     (case r of
        None \<Rightarrow> []
      | Some s \<Rightarrow>
          (case craqChain s of
             None \<Rightarrow> []
           | Some c \<Rightarrow> map (\<lambda>v. (Version v, Metadata v)) (versions_of c blockID)))"

definition after_one_write :: Service where
  "after_one_write = fst (Service_WriteBlock stub_digest 10 11 demo_service ''blk'' (Some ''p1''))"

definition after_two_writes :: Service where
  "after_two_writes = fst (Service_WriteBlock stub_digest 20 21 after_one_write ''blk'' (Some ''p2''))"

text \<open>
  The same two writes with the first write's goroutine run in between, and the number
  and clean flag of each version the chain then holds.
\<close>

definition chain_flags :: "Service \<Rightarrow> string \<Rightarrow> (int \<times> bool) list" where
  "chain_flags s blockID =
     (case craqChain s of
        None \<Rightarrow> []
      | Some c \<Rightarrow> map (\<lambda>v. (Version v, Clean v)) (versions_of c blockID))"

definition after_first_clean :: Service where
  "after_first_clean =
     after_one_write\<lparr>craqChain := map_option (\<lambda>c. run_pending c 0) (craqChain after_one_write)\<rparr>"

definition after_second_write :: Service where
  "after_second_write =
     fst (Service_WriteBlock stub_digest 20 21 after_first_clean ''blk'' (Some ''p2''))"

section \<open>The topology after Initialize\<close>

lemma one_node_chain_eq:
  "one_node_chain = empty_chain\<lparr>head := Some 0, tail := Some 0,
      nodes := [\<lparr>Node_ID = ''node-1'', Address = ''10.0.0.1:7000'', IsHead = True, IsTail = True,
                 NextNode = None, PrevNode = None\<rparr>]\<rparr>"
  by (simp add: one_node_chain_def AddNode_def empty_chain_def)

lemma NewChain_wf: "NewChain cl rf = Inr c \<Longrightarrow> wf_topology c"
  by (auto simp: NewChain_def wf_topology_def split: if_splits)

lemma AddNode_wf: "wf_topology c \<Longrightarrow> wf_topology (fst (AddNode c i a))"
  by (auto simp: AddNode_def wf_topology_def Let_def split: option.splits)

lemma map_update_same:
  assumes "f (g (xs ! t)) = f (xs ! t)"
  shows "map f (xs[t := g (xs ! t)]) = map f xs"
proof (cases "t < length xs")
  case True
  then have "(map f xs)[t := f (xs ! t)] = map f xs"
    by (metis list_update_id map_update)
  with assms show ?thesis by (simp add: map_update)
next
  case False
  then have "xs[t := g (xs ! t)] = xs"
    by (simp add: list_update_beyond not_less)
  then show ?thesis by simp
qed

lemma map_Node_ID_retag:
  "map Node_ID (ns[t := (ns ! t)\<lparr>IsTail := b, NextNode := n\<rparr>]) = map Node_ID ns"
  using map_update_same [of Node_ID "\<lambda>x. x\<lparr>IsTail := b, NextNode := n\<rparr>" ns t] by simp

text \<open>
  C8, as the code has it. \<open>Initialize\<close> leaves the chain as it was, so it cannot close
  the topology: an \<open>AddNode\<close> after a successful \<open>Initialize\<close> succeeds and appends the
  node while the chain holds fewer than \<open>chainLength\<close> nodes, and fails, changing
  nothing, only when the chain is full.
\<close>

theorem AddNode_after_Initialize:
  assumes "wf_topology c" and "Initialize c = (c', None)"
  shows "c' = c \<and>
         (if int (length (nodes c)) < chainLength c then
            snd (AddNode c' i a) = None \<and>
            map Node_ID (nodes (fst (AddNode c' i a))) = map Node_ID (nodes c) @ [i]
          else AddNode c' i a = (c, Some (ErrNew ''chain is already at maximum length'')))"
  using assms
  by (auto simp: Initialize_def AddNode_def wf_topology_def Let_def map_Node_ID_retag
           split: if_splits option.splits)

theorem AddNode_after_Initialize_witness:
  "wf_topology one_node_chain \<and> Initialize one_node_chain = (one_node_chain, None) \<and>
   snd (AddNode one_node_chain ''node-2'' ''10.0.0.2:7000'') = None \<and>
   map Node_ID (nodes (fst (AddNode one_node_chain ''node-2'' ''10.0.0.2:7000''))) =
     [''node-1'', ''node-2'']"
proof -
  have wf: "wf_topology one_node_chain"
    by (simp add: one_node_chain_eq wf_topology_def empty_chain_def)
  have init: "Initialize one_node_chain = (one_node_chain, None)"
    by (simp add: one_node_chain_eq Initialize_def empty_chain_def)
  have room: "int (length (nodes one_node_chain)) < chainLength one_node_chain"
    by (simp add: one_node_chain_eq empty_chain_def)
  have ids: "map Node_ID (nodes one_node_chain) = [''node-1'']"
    by (simp add: one_node_chain_eq empty_chain_def)
  from AddNode_after_Initialize [OF wf init, of "''node-2''" "''10.0.0.2:7000''"] room ids wf init
  show ?thesis by simp
qed

text \<open>
  The claim as the spec words it fails on a chain of configured length 2 that holds one
  node: \<open>Initialize\<close> succeeds, and the \<open>AddNode\<close> after it succeeds too and makes the
  chain two nodes long.
\<close>

theorem AddNode_after_Initialize_counterexample:
  "NewChain 2 1 = Inr empty_chain \<and>
   Initialize one_node_chain = (one_node_chain, None) \<and>
   snd (AddNode one_node_chain ''node-2'' ''10.0.0.2:7000'') = None \<and>
   map Node_ID (nodes (fst (AddNode one_node_chain ''node-2'' ''10.0.0.2:7000''))) =
     [''node-1'', ''node-2'']"
  by (simp add: NewChain_def empty_chain_def one_node_chain_def AddNode_def Initialize_def)

section \<open>The version ledger\<close>

lemma numbered_Nil: "numbered []"
  by (simp add: numbered_def)

lemma numbered_last:
  assumes "numbered vs" and "vs \<noteq> []"
  shows "Version (last vs) = int (length vs)"
proof -
  from assms(2) have "Version (last vs) = last (map Version vs)"
    by (simp add: last_map)
  also from assms have "\<dots> = last [1..int (length vs)]"
    by (simp add: numbered_def)
  also from assms(2) have "\<dots> = int (length vs)"
    by (cases vs) (simp_all add: upto_rec2)
  finally show ?thesis .
qed

lemma nextVersionOf_numbered:
  "numbered (Versions b) \<Longrightarrow> nextVersionOf b = int (length (Versions b)) + 1"
  by (cases "Versions b = []") (simp_all add: nextVersionOf_def numbered_last)

lemma numbered_snoc:
  assumes "numbered vs" and "Version v = int (length vs) + 1"
  shows "numbered (vs @ [v])"
  using assms by (simp add: numbered_def upto_rec2)

lemma payload_markClean: "map payload (markClean nv vs) = map payload vs"
  by (induction vs) (simp_all add: payload_def)

lemma Version_markClean: "map Version (markClean nv vs) = map Version vs"
  by (induction vs) simp_all

lemma length_markClean: "length (markClean nv vs) = length vs"
  by (induction vs) simp_all

lemma numbered_markClean: "numbered vs \<Longrightarrow> numbered (markClean nv vs)"
  by (simp add: numbered_def Version_markClean length_markClean)

lemma markClean_snoc:
  assumes "\<forall>x\<in>set vs. Version x \<noteq> nv" and "Version v = nv"
  shows "markClean nv (vs @ [v]) = vs @ [v\<lparr>Clean := True\<rparr>]"
  using assms by (induction vs) simp_all

lemma numbered_bound:
  assumes "numbered vs" and "x \<in> set vs"
  shows "Version x \<le> int (length vs)"
proof -
  from assms(2) have "Version x \<in> set (map Version vs)" by simp
  with assms(1) show ?thesis by (simp add: numbered_def)
qed


lemma Write_no_head:
  "head c = None \<Longrightarrow> Write c now blockID d m = (c, Some (ErrNew ''chain has no head node''))"
  by (simp add: Write_def)

lemma Write_existing:
  assumes "head c \<noteq> None" and "blocks c blockID = Some a"
  shows "Write c now blockID d m =
           (c\<lparr>heap := (heap c)(a := (heap c a)\<lparr>Versions := Versions (heap c a) @
                  [\<lparr>Version = nextVersionOf (heap c a), Data = d, Metadata = m,
                    Timestamp = now, Clean = False\<rparr>]\<rparr>),
               pending := pending c @ [(a, nextVersionOf (heap c a))]\<rparr>, None)"
  using assms by (simp add: Write_def getOrCreate_def Let_def)

lemma Write_fresh:
  assumes "head c \<noteq> None" and "blocks c blockID = None"
  shows "Write c now blockID d m =
           (c\<lparr>heap := (heap c)(next_addr c := \<lparr>Block_ID = blockID, Versions =
                  [\<lparr>Version = 1, Data = d, Metadata = m, Timestamp = now, Clean = False\<rparr>]\<rparr>),
               blocks := (blocks c)(blockID \<mapsto> next_addr c),
               next_addr := Suc (next_addr c),
               pending := pending c @ [(next_addr c, 1)]\<rparr>, None)"
  using assms by (simp add: Write_def getOrCreate_def Let_def nextVersionOf_def)

lemma Write_ledger_ok:
  assumes "ledger_ok c"
  shows "ledger_ok (fst (Write c now blockID d m))"
proof (cases "head c = None")
  case True
  with assms show ?thesis by (simp add: Write_no_head)
next
  case hd: False
  show ?thesis
  proof (cases "blocks c blockID")
    case None
    have "numbered [\<lparr>Version = 1, Data = d, Metadata = m, Timestamp = now, Clean = False\<rparr>]"
      by (simp add: numbered_def)
    with assms None hd show ?thesis
      by (auto simp: Write_fresh ledger_ok_def less_Suc_eq)
  next
    case (Some a)
    with assms have a: "a < next_addr c" and n: "numbered (Versions (heap c a))"
      by (auto simp: ledger_ok_def)
    have "numbered (Versions (heap c a) @
            [\<lparr>Version = nextVersionOf (heap c a), Data = d, Metadata = m,
              Timestamp = now, Clean = False\<rparr>])"
      by (rule numbered_snoc [OF n]) (simp add: nextVersionOf_numbered [OF n])
    with assms Some hd show ?thesis
      by (auto simp: Write_existing ledger_ok_def)
  qed
qed

lemma AddNode_frame:
  "blocks (fst (AddNode c i a)) = blocks c \<and> heap (fst (AddNode c i a)) = heap c \<and>
   next_addr (fst (AddNode c i a)) = next_addr c \<and> pending (fst (AddNode c i a)) = pending c"
  by (simp add: AddNode_def Let_def split: option.splits)

lemma run_pending_frame:
  "blocks (run_pending c i) = blocks c \<and> next_addr (run_pending c i) = next_addr c"
  by (simp add: run_pending_def goroutine_def split: prod.splits)

lemma run_pending_heap:
  "\<exists>nv. Versions (heap (run_pending c i) a) = Versions (heap c a) \<or>
        Versions (heap (run_pending c i) a) = markClean nv (Versions (heap c a))"
  by (auto simp: run_pending_def goroutine_def split: prod.splits)

lemma step_ledger_ok:
  assumes "ledger_ok c"
  shows "ledger_ok (chain_step c op)"
proof (cases op)
  case (OpAddNode i a)
  with assms show ?thesis by (simp add: ledger_ok_def AddNode_frame)
next
  case OpInitialize
  with assms show ?thesis by (simp add: Initialize_def)
next
  case (OpWrite now blockID d m)
  with assms show ?thesis by (simp add: Write_ledger_ok)
next
  case (OpRead blockID)
  with assms show ?thesis by simp
next
  case (OpDelete blockID)
  with assms show ?thesis
    by (auto simp: Delete_def ledger_ok_def split: option.splits if_splits)
next
  case (OpGoroutine i)
  have "numbered (Versions (heap (run_pending c i) a))" if "a < next_addr c" for a
  proof -
    from assms that have "numbered (Versions (heap c a))" by (simp add: ledger_ok_def)
    with run_pending_heap [of c i a] show ?thesis by (auto simp: numbered_markClean)
  qed
  with assms OpGoroutine show ?thesis by (simp add: ledger_ok_def run_pending_frame)
qed

lemma NewChain_ledger_ok: "NewChain cl rf = Inr c \<Longrightarrow> ledger_ok c"
  by (auto simp: NewChain_def ledger_ok_def split: if_splits)

lemma run_ledger_ok: "ledger_ok c \<Longrightarrow> ledger_ok (foldl chain_step c ops)"
  by (induction ops arbitrary: c) (simp_all add: step_ledger_ok)

lemma step_append_only:
  assumes "ledger_ok c" and "a < next_addr c"
  shows "prefix (map payload (Versions (heap c a))) (map payload (Versions (heap (chain_step c op) a)))"
proof (cases op)
  case (OpAddNode i a)
  then show ?thesis by (simp add: AddNode_frame)
next
  case OpInitialize
  then show ?thesis by (simp add: Initialize_def)
next
  case (OpWrite now blockID d m)
  show ?thesis
  proof (cases "head c = None")
    case True
    with OpWrite show ?thesis by (simp add: Write_no_head)
  next
    case hd: False
    show ?thesis
    proof (cases "blocks c blockID")
      case None
      with hd OpWrite assms(2) show ?thesis by (simp add: Write_fresh)
    next
      case (Some b)
      with hd OpWrite show ?thesis by (simp add: Write_existing)
    qed
  qed
next
  case (OpRead blockID)
  then show ?thesis by simp
next
  case (OpDelete blockID)
  then show ?thesis by (simp add: Delete_def split: option.splits)
next
  case (OpGoroutine i)
  with run_pending_heap [of c i a] show ?thesis by (auto simp: payload_markClean)
qed

lemma Write_appends:
  assumes "Write c now blockID d m = (c', None)"
  shows "versions_of c' blockID =
           versions_of c blockID @
           [\<lparr>Version = (if versions_of c blockID = [] then 1
                         else Version (last (versions_of c blockID)) + 1),
             Data = d, Metadata = m, Timestamp = now, Clean = False\<rparr>]"
proof (cases "head c = None")
  case True
  with assms show ?thesis by (simp add: Write_no_head)
next
  case hd: False
  show ?thesis
  proof (cases "blocks c blockID")
    case None
    with hd assms show ?thesis by (auto simp: Write_fresh versions_of_def)
  next
    case (Some a)
    with hd assms show ?thesis
      by (auto simp: Write_existing versions_of_def nextVersionOf_def)
  qed
qed

text \<open>
  C7. On every chain reached from \<open>NewChain\<close> by any operations, every block of the map
  has the version numbers \<open>1, 2, \<dots>, n\<close>; one more operation of any kind keeps the
  versions it had as a prefix, payload for payload (only a clean flag may differ), and
  leaves the block in the map or removes it whole; and a successful \<open>Write\<close> appends
  exactly one version, numbered 1 on a block with no version and the last number plus
  one otherwise.
\<close>

theorem version_ledger:
  assumes "NewChain cl rf = Inr c0"
  shows "let c = foldl chain_step c0 ops; c' = chain_step c op in
           (\<forall>blockID a. blocks c blockID = Some a \<longrightarrow>
              map Version (Versions (heap c a)) = [1..int (length (Versions (heap c a)))] \<and>
              prefix (map payload (Versions (heap c a))) (map payload (Versions (heap c' a))) \<and>
              (blocks c' blockID = Some a \<or> blocks c' blockID = None)) \<and>
           (\<forall>now blockID d m c''. Write c now blockID d m = (c'', None) \<longrightarrow>
              versions_of c'' blockID =
                versions_of c blockID @
                [\<lparr>Version = (if versions_of c blockID = [] then 1
                              else Version (last (versions_of c blockID)) + 1),
                  Data = d, Metadata = m, Timestamp = now, Clean = False\<rparr>])"
proof -
  define c where "c = foldl chain_step c0 ops"
  have ok: "ledger_ok c"
    unfolding c_def by (rule run_ledger_ok [OF NewChain_ledger_ok [OF assms]])
  have 1: "map Version (Versions (heap c a)) = [1..int (length (Versions (heap c a)))]"
    if "blocks c blockID = Some a" for blockID a
    using ok that by (auto simp: ledger_ok_def numbered_def)
  have 2: "prefix (map payload (Versions (heap c a)))
             (map payload (Versions (heap (chain_step c op) a)))"
    if "blocks c blockID = Some a" for blockID a
  proof -
    from ok that have "a < next_addr c" by (auto simp: ledger_ok_def)
    with ok show ?thesis by (rule step_append_only)
  qed
  have 3: "blocks (chain_step c op) blockID = Some a \<or> blocks (chain_step c op) blockID = None"
    if "blocks c blockID = Some a" for blockID a
  proof (cases op)
    case (OpWrite now b d m)
    show ?thesis
    proof (cases "head c = None")
      case True
      with OpWrite that show ?thesis by (simp add: Write_no_head)
    next
      case hd: False
      with OpWrite that show ?thesis
        by (cases "blocks c b") (auto simp: Write_fresh Write_existing)
    qed
  next
    case (OpDelete b)
    with that show ?thesis by (auto simp: Delete_def split: option.splits)
  qed (use that in \<open>simp_all add: AddNode_frame Initialize_def run_pending_frame\<close>)
  have 4: "versions_of c'' blockID =
             versions_of c blockID @
             [\<lparr>Version = (if versions_of c blockID = [] then 1
                           else Version (last (versions_of c blockID)) + 1),
               Data = d, Metadata = m, Timestamp = now, Clean = False\<rparr>]"
    if "Write c now blockID d m = (c'', None)" for now blockID d m c''
    using that by (rule Write_appends)
  show ?thesis
    unfolding Let_def c_def [symmetric]
  proof (intro conjI allI impI)
    fix blockID a
    assume "blocks c blockID = Some a"
    then show "map Version (Versions (heap c a)) = [1..int (length (Versions (heap c a)))]"
      and "prefix (map payload (Versions (heap c a)))
             (map payload (Versions (heap (chain_step c op) a)))"
      and "blocks (chain_step c op) blockID = Some a \<or> blocks (chain_step c op) blockID = None"
      by (rule 1, rule 2, rule 3)
  next
    fix now blockID d m c''
    assume "Write c now blockID d m = (c'', None)"
    then show "versions_of c'' blockID =
             versions_of c blockID @
             [\<lparr>Version = (if versions_of c blockID = [] then 1
                           else Version (last (versions_of c blockID)) + 1),
               Data = d, Metadata = m, Timestamp = now, Clean = False\<rparr>]"
      by (rule 4)
  qed
qed

lemma two_writes_run:
  "foldl chain_step empty_chain
     [OpAddNode ''node-1'' ''10.0.0.1:7000'',
      OpWrite 5 ''blk'' (Some ''old'') (Some ''m1''),
      OpWrite 6 ''blk'' (Some ''new'') (Some ''m2'')] = two_writes"
  by (simp add: two_writes_def one_node_chain_def)

lemma two_writes_block:
  "blocks two_writes ''blk'' = Some 0 \<and>
   Versions (heap two_writes 0) =
     [\<lparr>Version = 1, Data = Some ''old'', Metadata = Some ''m1'', Timestamp = 5, Clean = False\<rparr>,
      \<lparr>Version = 2, Data = Some ''new'', Metadata = Some ''m2'', Timestamp = 6, Clean = False\<rparr>]"
  by (simp add: two_writes_def one_node_chain_eq empty_chain_def Write_def getOrCreate_def
        nextVersionOf_def)

theorem version_ledger_witness:
  "NewChain 2 1 = Inr empty_chain \<and>
   blocks two_writes ''blk'' = Some 0 \<and>
   map Version (Versions (heap two_writes 0)) = [1, 2] \<and>
   prefix (map payload (Versions (heap two_writes 0)))
     (map payload (Versions (heap (chain_step two_writes (OpGoroutine 0)) 0)))"
proof -
  have new: "NewChain 2 1 = Inr empty_chain"
    by (simp add: NewChain_def empty_chain_def)
  have blk: "blocks two_writes ''blk'' = Some 0"
    by (simp add: two_writes_block)
  have "[1..int (length (Versions (heap two_writes 0)))] = [1, 2]"
    by (simp add: two_writes_block upto_rec1)
  with version_ledger [OF new,
      of "[OpAddNode ''node-1'' ''10.0.0.1:7000'',
           OpWrite 5 ''blk'' (Some ''old'') (Some ''m1''),
           OpWrite 6 ''blk'' (Some ''new'') (Some ''m2'')]" "OpGoroutine 0",
      unfolded Let_def two_writes_run] new blk
  show ?thesis by auto
qed

section \<open>What Write leaves and what Read returns\<close>

lemma markClean_new:
  assumes "numbered vs"
  shows "markClean (int (length vs) + 1)
           (vs @ [\<lparr>Version = int (length vs) + 1, Data = d, Metadata = m, Timestamp = t, Clean = False\<rparr>]) =
         vs @ [\<lparr>Version = int (length vs) + 1, Data = d, Metadata = m, Timestamp = t, Clean = True\<rparr>]"
proof -
  have "\<forall>x\<in>set vs. Version x \<noteq> int (length vs) + 1"
    using numbered_bound [OF assms] by fastforce
  then show ?thesis by (simp add: markClean_snoc)
qed




lemma latestClean_None: "latestClean xs = None \<longleftrightarrow> (\<forall>v\<in>set xs. \<not> Clean v)"
  by (induction xs) auto

text \<open>
  What \<open>Read\<close> does for a block that has versions, none of them clean: no error, and
  the data and the metadata of the oldest version.
\<close>

lemma Read_without_clean_version:
  assumes "blocks c blockID = Some a"
    and "Versions (heap c a) = v0 # vs"
    and "\<forall>v\<in>set (v0 # vs). \<not> Clean v"
  shows "Read c blockID = Inr (Data v0, Metadata v0)"
proof -
  from assms(3) have "latestClean (rev (v0 # vs)) = None"
    unfolding latestClean_None by simp
  with assms(1,2) show ?thesis by (simp add: Read_def)
qed

text \<open>
  C1 asks that a block whose latest version is dirty, with no committed version to
  resolve to, is reported as not ready and never answered with an older version. The
  code at such a block: a new chain, one node, two writes to \<open>blk\<close> and no goroutine run
  yet. Versions 1 and 2 are both dirty, and \<open>Read\<close> returns the payload of version 1
  with no error.
\<close>

theorem Read_serves_dirty_oldest:
  "NewChain 2 1 = Inr empty_chain \<and>
   foldl chain_step empty_chain
     [OpAddNode ''node-1'' ''10.0.0.1:7000'',
      OpWrite 5 ''blk'' (Some ''old'') (Some ''m1''),
      OpWrite 6 ''blk'' (Some ''new'') (Some ''m2'')] = two_writes \<and>
   blocks two_writes ''blk'' = Some 0 \<and>
   map Version (Versions (heap two_writes 0)) = [1, 2] \<and>
   map Clean (Versions (heap two_writes 0)) = [False, False] \<and>
   Read two_writes ''blk'' = Inr (Some ''old'', Some ''m1'')"
proof -
  have new: "NewChain 2 1 = Inr empty_chain"
    by (simp add: NewChain_def empty_chain_def)
  have blk: "blocks two_writes ''blk'' = Some 0"
    and vs: "map Version (Versions (heap two_writes 0)) = [1, 2]"
    and cl: "map Clean (Versions (heap two_writes 0)) = [False, False]"
    by (simp_all add: two_writes_block)
  have "Read two_writes ''blk'' = Inr (Some ''old'', Some ''m1'')"
    using Read_without_clean_version [of two_writes "''blk''" 0 _ _]
    by (simp add: two_writes_block)
  with new two_writes_run blk vs cl show ?thesis by blast
qed

section \<open>Storage paths\<close>

lemma length_padBlockID: "2 \<le> length (padBlockID blockID)"
  by (simp add: padBlockID_def)

lemma shardOf_eq: "shardOf blockID = Inr (take 2 (padBlockID blockID))"
  by (simp add: shardOf_def sliceTo_def length_padBlockID)

lemma getBlockPath_eq: "getBlockPath s blockID = Inr (blockPathOf s blockID)"
  by (simp add: getBlockPath_def shardOf_eq blockPathOf_def)

lemma getMetadataPath_eq: "getMetadataPath s blockID = Inr (blockPathOf s blockID @ ''.meta'')"
  by (simp add: getMetadataPath_def getBlockPath_eq)

lemma join_a: "filepath_Join [''/data'', ''00'', ''00a''] = ''/data/00/00a''"
  by code_simp

lemma join_empty: "filepath_Join [''/data'', ''00'', ''00''] = ''/data/00/00''"
  by code_simp

lemma join_abc: "filepath_Join [''/data'', ''ab'', ''abc''] = ''/data/ab/abc''"
  by code_simp

text \<open>
  C9. The padded id has at least two bytes whatever the id is, so \<open>blockID[:2]\<close> is in
  bounds: \<open>shardOf\<close> and \<open>getBlockPath\<close> return a value and never the panic. The path
  is a function of the data path and the id. The id \<open>a\<close> is padded to \<open>00a\<close>, and
  \<open>a\<close>, \<open>00a\<close> and the empty id all go to the shard directory \<open>00\<close>.
\<close>

theorem getBlockPath_in_bounds:
  "2 \<le> length (padBlockID blockID) \<and>
   shardOf blockID = Inr (take 2 (padBlockID blockID)) \<and>
   getBlockPath s blockID =
     Inr (filepath_Join [dataPath s, take 2 (padBlockID blockID), padBlockID blockID]) \<and>
   padBlockID ''a'' = ''00a'' \<and>
   shardOf ''a'' = Inr ''00'' \<and> shardOf ''00a'' = Inr ''00'' \<and> shardOf [] = Inr ''00''"
  by (simp add: length_padBlockID shardOf_eq getBlockPath_eq blockPathOf_def) (simp add: padBlockID_def)

theorem getBlockPath_in_bounds_witness:
  "getBlockPath store0 ''a'' = Inr ''/data/00/00a'' \<and> getBlockPath store0 [] = Inr ''/data/00/00''"
  using getBlockPath_in_bounds [of "''a''" store0] getBlockPath_in_bounds [of "[]" store0]
  by (simp add: store0_def padBlockID_def join_a join_empty)

lemma meta_neq: "p @ ''.meta'' \<noteq> p"
  by simp

lemma WriteBlock_ok_file:
  assumes "LocalStorage_WriteBlock s blockID d m = (s', None)"
  shows "files (disk s') (blockPathOf s blockID) = Some (content d) \<and> dataPath s' = dataPath s"
  using assms
  by (auto simp: LocalStorage_WriteBlock_def getBlockPath_eq getMetadataPath_eq ioutil_WriteFile_def
           split: if_splits option.splits)

text \<open>
  C10. An id shorter than two bytes and the same id behind \<open>00\<close> are different ids
  with the same data path and the same sidecar path, so a successful \<open>WriteBlock\<close> to
  either leaves its bytes in the file the other one resolves to.
\<close>

theorem short_id_shares_files:
  assumes "length blockID < 2"
  shows "blockID \<noteq> ''00'' @ blockID \<and>
         getBlockPath s blockID = getBlockPath s (''00'' @ blockID) \<and>
         getMetadataPath s blockID = getMetadataPath s (''00'' @ blockID) \<and>
         (\<forall>d m s'. LocalStorage_WriteBlock s (''00'' @ blockID) d m = (s', None) \<longrightarrow>
            (\<exists>p. getBlockPath s' blockID = Inr p \<and> files (disk s') p = Some (content d))) \<and>
         (\<forall>d m s'. LocalStorage_WriteBlock s blockID d m = (s', None) \<longrightarrow>
            (\<exists>p. getBlockPath s' (''00'' @ blockID) = Inr p \<and> files (disk s') p = Some (content d)))"
proof -
  from assms have pad: "padBlockID blockID = padBlockID (''00'' @ blockID)"
    by (simp add: padBlockID_def)
  then have bp: "blockPathOf t blockID = blockPathOf t (''00'' @ blockID)" for t
    by (simp add: blockPathOf_def)
  have 1: "\<exists>p. getBlockPath s' blockID = Inr p \<and> files (disk s') p = Some (content d)"
    if w: "LocalStorage_WriteBlock s (''00'' @ blockID) d m = (s', None)" for d m s'
  proof -
    from WriteBlock_ok_file [OF w]
    have "files (disk s') (blockPathOf s (''00'' @ blockID)) = Some (content d)"
      and "blockPathOf s' blockID = blockPathOf s (''00'' @ blockID)"
      by (simp_all add: blockPathOf_def pad)
    then show ?thesis by (simp add: getBlockPath_eq)
  qed
  have 2: "\<exists>p. getBlockPath s' (''00'' @ blockID) = Inr p \<and> files (disk s') p = Some (content d)"
    if w: "LocalStorage_WriteBlock s blockID d m = (s', None)" for d m s'
  proof -
    from WriteBlock_ok_file [OF w]
    have "files (disk s') (blockPathOf s blockID) = Some (content d)"
      and "blockPathOf s' (''00'' @ blockID) = blockPathOf s blockID"
      by (simp_all add: blockPathOf_def pad)
    then show ?thesis by (simp add: getBlockPath_eq)
  qed
  have 3: "blockID \<noteq> ''00'' @ blockID"
  proof
    assume "blockID = ''00'' @ blockID"
    then have "length blockID = length (''00'' @ blockID)" by (rule arg_cong)
    then show False by simp
  qed
  have 4: "getBlockPath s blockID = getBlockPath s (''00'' @ blockID)"
    unfolding getBlockPath_eq bp ..
  have 5: "getMetadataPath s blockID = getMetadataPath s (''00'' @ blockID)"
    unfolding getMetadataPath_eq bp ..
  from 1 2 3 4 5 show ?thesis by blast
qed

lemma blockPathOf_a: "blockPathOf store0 ''a'' = ''/data/00/00a''"
  by (simp add: blockPathOf_def store0_def padBlockID_def join_a)

lemma blockPathOf_abc: "blockPathOf readonly_shard_store ''abc'' = ''/data/ab/abc''"
  by (simp add: blockPathOf_def readonly_shard_store_def padBlockID_def join_abc)

lemma blockPathOf_00a: "blockPathOf store0 ''00a'' = ''/data/00/00a''"
  by (simp add: blockPathOf_def store0_def padBlockID_def join_a)

lemma write_00a:
  "LocalStorage_WriteBlock store0 ''00a'' (Some ''two'') (Some ''m2'') =
     (store0\<lparr>disk := plain_disk\<lparr>files := [''/data/00/00a'' \<mapsto> ''two'', ''/data/00/00a.meta'' \<mapsto> ''m2'']\<rparr>,
             cache := [''00a'' \<mapsto> Some ''two'']\<rparr>, None)"
  by (simp add: LocalStorage_WriteBlock_def getBlockPath_eq getMetadataPath_eq blockPathOf_00a
        ioutil_WriteFile_def content_def)
     (simp add: store0_def plain_disk_def)

theorem short_id_shares_files_witness:
  "length ''a'' < 2 \<and>
   getBlockPath store0 ''a'' = Inr ''/data/00/00a'' \<and>
   getBlockPath store0 ''00a'' = Inr ''/data/00/00a'' \<and>
   snd (LocalStorage_WriteBlock store0 ''00a'' (Some ''two'') (Some ''m2'')) = None \<and>
   (\<exists>p. getBlockPath (fst (LocalStorage_WriteBlock store0 ''00a'' (Some ''two'') (Some ''m2''))) ''a'' = Inr p \<and>
        files (disk (fst (LocalStorage_WriteBlock store0 ''00a'' (Some ''two'') (Some ''m2'')))) p =
          Some ''two'')"
proof -
  have len: "length ''a'' < 2" by simp
  have p0: "getBlockPath store0 ''a'' = Inr ''/data/00/00a''"
    by (simp add: getBlockPath_eq blockPathOf_a)
  note shared = short_id_shares_files [OF len, of store0, unfolded append_Cons append_Nil]
  from shared have eq: "getBlockPath store0 ''a'' = getBlockPath store0 ''00a''"
    by blast
  from shared have imp:
    "\<exists>p. getBlockPath s' ''a'' = Inr p \<and> files (disk s') p = Some (content d)"
    if "LocalStorage_WriteBlock store0 ''00a'' d m = (s', None)" for d m s'
    using that by blast
  have ex: "\<exists>p. getBlockPath (fst (LocalStorage_WriteBlock store0 ''00a'' (Some ''two'') (Some ''m2''))) ''a'' = Inr p \<and>
        files (disk (fst (LocalStorage_WriteBlock store0 ''00a'' (Some ''two'') (Some ''m2'')))) p =
          Some (content (Some ''two''))"
    unfolding write_00a fst_conv by (rule imp [OF write_00a])
  have ok: "snd (LocalStorage_WriteBlock store0 ''00a'' (Some ''two'') (Some ''m2'')) = None"
    by (simp add: write_00a)
  from ex have ex': "\<exists>p. getBlockPath (fst (LocalStorage_WriteBlock store0 ''00a'' (Some ''two'') (Some ''m2''))) ''a'' = Inr p \<and>
        files (disk (fst (LocalStorage_WriteBlock store0 ''00a'' (Some ''two'') (Some ''m2'')))) p =
          Some ''two''"
    by (simp add: content_def)
  from eq p0 have p1: "getBlockPath store0 ''00a'' = Inr ''/data/00/00a''" by simp
  from len p0 p1 ok ex' show ?thesis by blast
qed

section \<open>A failed sidecar write\<close>

text \<open>
  C6, as the code has it. When the data file is written and the sidecar's write fails,
  \<open>WriteBlock\<close> calls \<open>os.Remove\<close> on the data file, drops what it returns, and returns
  the metadata error without touching the cache. The data file is gone when that
  removal succeeds; when the removal fails, the file stays, holding the new bytes.
\<close>

theorem WriteBlock_sidecar_failure:
  assumes "\<not> write_fails (disk s) (blockPathOf s blockID)"
    and "write_fails (disk s) (blockPathOf s blockID @ ''.meta'')"
    and "LocalStorage_WriteBlock s blockID d (Some mb) = (s', err)"
  shows "err = Some (ErrWrap ''failed to write block metadata''
                      (ErrOS ''open'' (blockPathOf s blockID @ ''.meta''))) \<and>
         cache s' = cache s \<and>
         files (disk s') (blockPathOf s blockID) =
           (if remove_fails (disk s) (blockPathOf s blockID) then Some (content d) else None)"
  using assms
  by (auto simp: LocalStorage_WriteBlock_def getBlockPath_eq getMetadataPath_eq
        ioutil_WriteFile_def os_Remove_def)

lemma blockPathOf_blocked: "blockPathOf blocked_sidecar_store ''abc'' = ''/data/ab/abc''"
  by (simp add: blockPathOf_def blocked_sidecar_store_def padBlockID_def join_abc)

theorem WriteBlock_sidecar_failure_witness:
  "\<not> write_fails (disk blocked_sidecar_store) ''/data/ab/abc'' \<and>
   write_fails (disk blocked_sidecar_store) ''/data/ab/abc.meta'' \<and>
   snd (LocalStorage_WriteBlock blocked_sidecar_store ''abc'' (Some ''v1'') (Some ''meta'')) =
     Some (ErrWrap ''failed to write block metadata'' (ErrOS ''open'' ''/data/ab/abc.meta'')) \<and>
   files (disk (fst (LocalStorage_WriteBlock blocked_sidecar_store ''abc'' (Some ''v1'') (Some ''meta''))))
     ''/data/ab/abc'' = None"
proof -
  have d: "\<not> write_fails (disk blocked_sidecar_store) (blockPathOf blocked_sidecar_store ''abc'')"
    by (simp add: blockPathOf_blocked) (simp add: blocked_sidecar_store_def blocked_sidecar_disk_def)
  have m: "write_fails (disk blocked_sidecar_store) (blockPathOf blocked_sidecar_store ''abc'' @ ''.meta'')"
    by (simp add: blockPathOf_blocked) (simp add: blocked_sidecar_store_def blocked_sidecar_disk_def)
  have r: "\<not> remove_fails (disk blocked_sidecar_store) ''/data/ab/abc''"
    by (simp add: blocked_sidecar_store_def blocked_sidecar_disk_def)
  from WriteBlock_sidecar_failure [OF d m surjective_pairing] d m r show ?thesis
    by (simp add: blockPathOf_blocked)
qed

text \<open>
  The claim as the spec words it fails in a shard directory without write permission
  that already holds the block's data file: the file is rewritten, the sidecar cannot
  be created, the removal fails unnoticed, and the call returns the metadata error
  with the new data file on disk and no sidecar beside it.
\<close>

theorem WriteBlock_sidecar_failure_counterexample:
  "getBlockPath readonly_shard_store ''abc'' = Inr ''/data/ab/abc'' \<and>
   getMetadataPath readonly_shard_store ''abc'' = Inr ''/data/ab/abc.meta'' \<and>
   snd (LocalStorage_WriteBlock readonly_shard_store ''abc'' (Some ''v1'') (Some ''meta'')) =
     Some (ErrWrap ''failed to write block metadata'' (ErrOS ''open'' ''/data/ab/abc.meta'')) \<and>
   files (disk (fst (LocalStorage_WriteBlock readonly_shard_store ''abc'' (Some ''v1'') (Some ''meta''))))
     ''/data/ab/abc'' = Some ''v1'' \<and>
   files (disk (fst (LocalStorage_WriteBlock readonly_shard_store ''abc'' (Some ''v1'') (Some ''meta''))))
     ''/data/ab/abc.meta'' = None"
  by (simp add: LocalStorage_WriteBlock_def getBlockPath_eq getMetadataPath_eq blockPathOf_abc
        ioutil_WriteFile_def os_Remove_def content_def)
     (simp add: readonly_shard_store_def readonly_shard_disk_def)

section \<open>The block service: delete\<close>

text \<open>
  C5, as the code has it. With a chain configured, \<open>DeleteBlock\<close> deletes through the
  chain first. When the chain's delete fails, the error is returned at once and the
  local deletion is not executed: the service, its local storage included, is left as
  it was. Only when the chain's delete succeeds is the local deletion run.
\<close>

theorem DeleteBlock_chain_failure:
  assumes "craqChain s = Some c"
  shows "(\<forall>c' e. Delete c blockID = (c', Some e) \<longrightarrow>
            Service_DeleteBlock s blockID =
              (s, Some (ErrWrap ''failed to delete block from replication chain'' e))) \<and>
         (\<forall>c'. Delete c blockID = (c', None) \<longrightarrow>
            craqChain (fst (Service_DeleteBlock s blockID)) = Some c' \<and>
            localStorage (fst (Service_DeleteBlock s blockID)) =
              fst (LocalStorage_DeleteBlock (localStorage s) blockID))"
  using assms
  by (auto simp: Service_DeleteBlock_def Delete_def split: option.splits prod.splits)

theorem DeleteBlock_chain_failure_witness:
  "craqChain restarted_service = Some one_node_chain \<and>
   Delete one_node_chain ''abc'' = (one_node_chain, Some (ErrNew ''block abc not found'')) \<and>
   Service_DeleteBlock restarted_service ''abc'' =
     (restarted_service,
      Some (ErrWrap ''failed to delete block from replication chain'' (ErrNew ''block abc not found'')))"
proof -
  have c: "craqChain restarted_service = Some one_node_chain"
    by (simp add: restarted_service_def)
  have d: "Delete one_node_chain ''abc'' = (one_node_chain, Some (ErrNew ''block abc not found''))"
    by (simp add: Delete_def one_node_chain_eq empty_chain_def)
  from DeleteBlock_chain_failure [OF c, of "''abc''"] d
  have "Service_DeleteBlock restarted_service ''abc'' =
     (restarted_service,
      Some (ErrWrap ''failed to delete block from replication chain'' (ErrNew ''block abc not found'')))"
    by blast
  with c d show ?thesis by simp
qed

text \<open>
  The claim as the spec words it fails on the restarted service: the chain does not
  know block \<open>abc\<close>, \<open>DeleteBlock\<close> returns the chain's error, and the data file is
  still on disk, although the local deletion alone would have removed it.
\<close>

lemma restarted_delete:
  "Service_DeleteBlock restarted_service ''abc'' =
     (restarted_service,
      Some (ErrWrap ''failed to delete block from replication chain'' (ErrNew ''block abc not found'')))"
  by (simp add: Service_DeleteBlock_def Delete_def restarted_service_def one_node_chain_eq
        empty_chain_def)

lemma blockPathOf_restarted: "blockPathOf (localStorage restarted_service) ''abc'' = ''/data/ab/abc''"
  by (simp add: blockPathOf_def restarted_service_def padBlockID_def join_abc)

theorem DeleteBlock_chain_failure_counterexample:
  "NewLocalStorage used_disk ''/data'' 1 = Inr (localStorage restarted_service) \<and>
   NewService (Some (localStorage restarted_service)) (Some one_node_chain) = Inr restarted_service \<and>
   Service_DeleteBlock restarted_service ''abc'' =
     (restarted_service,
      Some (ErrWrap ''failed to delete block from replication chain'' (ErrNew ''block abc not found''))) \<and>
   files (disk (localStorage (fst (Service_DeleteBlock restarted_service ''abc'')))) ''/data/ab/abc'' =
     Some ''v0'' \<and>
   files (disk (fst (LocalStorage_DeleteBlock (localStorage restarted_service) ''abc''))) ''/data/ab/abc'' =
     None"
proof -
  have 1: "NewLocalStorage used_disk ''/data'' 1 = Inr (localStorage restarted_service)"
    by (simp add: NewLocalStorage_def restarted_service_def)
  have 2: "NewService (Some (localStorage restarted_service)) (Some one_node_chain) =
             Inr restarted_service"
    by (simp add: NewService_def restarted_service_def)
  have 3: "files (disk (localStorage restarted_service)) ''/data/ab/abc'' = Some ''v0''"
    by (simp add: restarted_service_def used_disk_def)
  have 4: "files (disk (fst (LocalStorage_DeleteBlock (localStorage restarted_service) ''abc'')))
             ''/data/ab/abc'' = None"
    by (simp add: LocalStorage_DeleteBlock_def getBlockPath_eq getMetadataPath_eq
          blockPathOf_restarted)
       (simp add: restarted_service_def used_disk_def plain_disk_def os_Remove_def
          os_IsNotExist_def)
  from 1 2 3 4 show ?thesis by (simp add: restarted_delete)
qed

section \<open>The block service: the version in the metadata\<close>

lemma Service_WriteBlock_ok:
  assumes "Service_WriteBlock sha256 now now' s blockID d = (s', None)"
  shows "(case craqChain s of
            None \<Rightarrow> craqChain s' = None
          | Some c \<Rightarrow> \<exists>c'. Write c now' blockID d (Some (json_Marshal (NewBlockMetadata sha256 d 1 now))) = (c', None) \<and>
                         craqChain s' = Some c') \<and>
         LocalStorage_WriteBlock (localStorage s) blockID d
           (Some (json_Marshal (NewBlockMetadata sha256 d 1 now))) = (localStorage s', None)"
  using assms
  by (auto simp: Service_WriteBlock_def Let_def split: option.splits prod.splits)

lemma ledger_ok_versions_of: "ledger_ok c \<Longrightarrow> numbered (versions_of c blockID)"
  by (auto simp: ledger_ok_def versions_of_def numbered_Nil split: option.splits)

lemma WriteBlock_step:
  assumes "craqChain s = Some c" and "ledger_ok c"
    and "Service_WriteBlock sha256 now now' s blockID d = (s', None)"
  shows "\<exists>c'. craqChain s' = Some c' \<and> ledger_ok c' \<and>
           versions_of c' blockID =
             versions_of c blockID @
             [\<lparr>Version = int (length (versions_of c blockID)) + 1, Data = d,
               Metadata = Some (json_Marshal (NewBlockMetadata sha256 d 1 now)),
               Timestamp = now', Clean = False\<rparr>]"
proof -
  let ?m = "Some (json_Marshal (NewBlockMetadata sha256 d 1 now))"
  from Service_WriteBlock_ok [OF assms(3)] assms(1)
  obtain c' where w: "Write c now' blockID d ?m = (c', None)" and c': "craqChain s' = Some c'"
    by auto
  from Write_ledger_ok [OF assms(2), of now' blockID d ?m] w have ok: "ledger_ok c'"
    by simp
  have n: "numbered (versions_of c blockID)"
    by (rule ledger_ok_versions_of [OF assms(2)])
  have "(if versions_of c blockID = [] then 1 else Version (last (versions_of c blockID)) + 1) =
          int (length (versions_of c blockID)) + 1"
    using numbered_last [OF n] by simp
  with Write_appends [OF w] c' ok show ?thesis by simp
qed

lemma WriteBlock_seq_inv:
  assumes "craqChain s = Some c" and "ledger_ok c"
    and "WriteBlock_seq sha256 s blockID ws = Some s'"
  shows "\<exists>c'. craqChain s' = Some c' \<and> ledger_ok c' \<and>
           length (versions_of c' blockID) = length (versions_of c blockID) + length ws"
  using assms
proof (induction ws arbitrary: s c)
  case Nil
  then show ?case by simp
next
  case (Cons w ws)
  obtain now now' d where w: "w = (now, now', d)" by (cases w)
  from Cons.prems(3) w obtain s1 where
    s1: "Service_WriteBlock sha256 now now' s blockID d = (s1, None)"
    and rest: "WriteBlock_seq sha256 s1 blockID ws = Some s'"
    by (auto split: prod.splits option.splits)
  from WriteBlock_step [OF Cons.prems(1,2) s1] obtain c1 where
    c1: "craqChain s1 = Some c1" "ledger_ok c1"
    "length (versions_of c1 blockID) = length (versions_of c blockID) + 1"
    by auto
  from Cons.IH [OF c1(1,2) rest] c1(3) show ?case by auto
qed

lemma WriteBlock_seq_snoc:
  "WriteBlock_seq sha256 s blockID (ws @ [w]) = Some s' \<longleftrightarrow>
     (\<exists>s1. WriteBlock_seq sha256 s blockID ws = Some s1 \<and>
           WriteBlock_seq sha256 s1 blockID [w] = Some s')"
proof (induction ws arbitrary: s)
  case Nil
  then show ?case by simp
next
  case (Cons x xs)
  obtain now now' d where x: "x = (now, now', d)" by (cases x)
  show ?case
    using Cons.IH by (simp add: x split: prod.splits option.splits)
qed

text \<open>
  After \<open>n\<close> successful \<open>WriteBlock\<close> calls to a block id the chain did not hold, the
  chain has numbered the last version \<open>n\<close>, and the metadata built by the \<open>n\<close>-th
  call, the bytes stored with that version, is the encoding of a record whose version
  is 1: the literal of the call, whatever \<open>n\<close> is.
\<close>

lemma WriteBlock_metadata_version:
  assumes "craqChain s = Some c" and "ledger_ok c" and "versions_of c blockID = []"
    and "WriteBlock_seq sha256 s blockID (ws @ [(now, now', d)]) = Some s'"
  shows "\<exists>c'. craqChain s' = Some c' \<and>
           length (versions_of c' blockID) = length ws + 1 \<and>
           Version (last (versions_of c' blockID)) = int (length ws) + 1 \<and>
           Metadata (last (versions_of c' blockID)) =
             Some (json_Marshal (NewBlockMetadata sha256 d 1 now)) \<and>
           Meta_Version (NewBlockMetadata sha256 d 1 now) = 1"
proof -
  from assms(4) obtain s1 where
    s1: "WriteBlock_seq sha256 s blockID ws = Some s1"
    and last: "WriteBlock_seq sha256 s1 blockID [(now, now', d)] = Some s'"
    unfolding WriteBlock_seq_snoc by blast
  from WriteBlock_seq_inv [OF assms(1,2) s1] assms(3) obtain c1 where
    c1: "craqChain s1 = Some c1" "ledger_ok c1" "length (versions_of c1 blockID) = length ws"
    by auto
  from last have w: "Service_WriteBlock sha256 now now' s1 blockID d = (s', None)"
    by (auto split: prod.splits option.splits)
  from WriteBlock_step [OF c1(1,2) w] c1(3) show ?thesis
    by (auto simp: NewBlockMetadata_def)
qed

lemma first_write: "Service_WriteBlock stub_digest 10 11 demo_service ''blk'' (Some ''p1'') = (after_one_write, None)"
proof -
  have "snd (Service_WriteBlock stub_digest 10 11 demo_service ''blk'' (Some ''p1'')) = None"
    by code_simp
  then show ?thesis by (simp add: after_one_write_def prod_eq_iff)
qed

lemma second_write: "Service_WriteBlock stub_digest 20 21 after_one_write ''blk'' (Some ''p2'') = (after_two_writes, None)"
proof -
  have "snd (Service_WriteBlock stub_digest 20 21 after_one_write ''blk'' (Some ''p2'')) = None"
    by code_simp
  then show ?thesis by (simp add: after_two_writes_def prod_eq_iff)
qed

lemma two_writes_seq:
  "WriteBlock_seq stub_digest demo_service ''blk'' ([(10, 11, Some ''p1'')] @ [(20, 21, Some ''p2'')]) =
     Some after_two_writes"
  by (simp add: first_write second_write)

lemma marshal_second:
  \<open>json_Marshal (NewBlockMetadata stub_digest (Some ''p2'') 1 20) =
     ''{"checksum":"64","size":2,"version":1,"created_at":20,"last_modified":20}''\<close>
  by code_simp

lemma ledger_ok_one_node: "ledger_ok one_node_chain"
  by (simp add: one_node_chain_eq empty_chain_def ledger_ok_def)

lemma WriteBlock_metadata_version_at_two:
  \<open>craqChain demo_service = Some one_node_chain \<and> ledger_ok one_node_chain \<and>
   versions_of one_node_chain ''blk'' = [] \<and>
   (\<exists>c'. craqChain after_two_writes = Some c' \<and>
         Version (last (versions_of c' ''blk'')) = 2 \<and>
         Metadata (last (versions_of c' ''blk'')) =
           Some ''{"checksum":"64","size":2,"version":1,"created_at":20,"last_modified":20}'')\<close>
proof -
  have c: "craqChain demo_service = Some one_node_chain"
    by (simp add: demo_service_def)
  have e: "versions_of one_node_chain ''blk'' = []"
    by (simp add: versions_of_def one_node_chain_eq empty_chain_def)
  from WriteBlock_metadata_version [OF c ledger_ok_one_node e two_writes_seq]
  have "\<exists>c'. craqChain after_two_writes = Some c' \<and>
         Version (last (versions_of c' ''blk'')) = 2 \<and>
         Metadata (last (versions_of c' ''blk'')) =
           Some (json_Marshal (NewBlockMetadata stub_digest (Some ''p2'') 1 20))"
    by auto
  with c e ledger_ok_one_node show ?thesis
    unfolding marshal_second by blast
qed

text \<open>
  C3 asks that the metadata built by the \<open>n\<close>-th successful \<open>WriteBlock\<close> to a block
  id carries version \<open>n\<close>, the version the chain has just assigned. The code at two
  writes to \<open>blk\<close>: the chain numbers the versions 1 and 2, and the metadata stored
  with each of them says \<open>"version":1\<close>.
\<close>

theorem WriteBlock_metadata_says_version_1:
  \<open>chain_metadata
     (WriteBlock_seq stub_digest demo_service ''blk'' [(10, 11, Some ''p1''), (20, 21, Some ''p2'')])
     ''blk'' =
   [(1, Some ''{"checksum":"64","size":2,"version":1,"created_at":10,"last_modified":10}''),
    (2, Some ''{"checksum":"64","size":2,"version":1,"created_at":20,"last_modified":20}'')]\<close>
  by code_simp

section \<open>The block service: write, then read\<close>

lemma WriteBlock_frame:
  assumes "LocalStorage_WriteBlock ls blockID d m = (ls', err)"
  shows "dataPath ls' = dataPath ls \<and> read_fails (disk ls') = read_fails (disk ls)"
  using assms
  by (auto simp: LocalStorage_WriteBlock_def getBlockPath_eq getMetadataPath_eq ioutil_WriteFile_def
        os_Remove_def split: if_splits option.splits)

lemma local_roundtrip:
  assumes w: "LocalStorage_WriteBlock ls blockID d (Some mb) = (ls', None)"
    and r: "\<not> read_fails (disk ls) (blockPathOf ls blockID @ ''.meta'')"
  shows "LocalStorage_ReadBlock ls' blockID = (ls', Inr (d, Some mb))"
proof -
  from w have c: "cache ls' blockID = Some d"
    and f: "files (disk ls') (blockPathOf ls blockID @ ''.meta'') = Some mb"
    by (auto simp: LocalStorage_WriteBlock_def getBlockPath_eq getMetadataPath_eq
          ioutil_WriteFile_def content_def split: if_splits)
  from WriteBlock_frame [OF w] have p: "blockPathOf ls' blockID = blockPathOf ls blockID"
    and rf: "read_fails (disk ls') = read_fails (disk ls)"
    by (simp_all add: blockPathOf_def)
  from f r rf p have "LocalStorage_ReadBlockMetadata ls' blockID = (True, Some mb, None)"
    by (simp add: LocalStorage_ReadBlockMetadata_def getMetadataPath_eq os_Stat_def
          os_IsNotExist_def ioutil_ReadFile_def)
  with c show ?thesis by (simp add: LocalStorage_ReadBlock_def)
qed

lemma Read_versions_of:
  assumes "versions_of c blockID = v0 # vs"
  shows "Read c blockID =
           (case latestClean (rev (v0 # vs)) of
              Some v \<Rightarrow> Inr (Data v, Metadata v)
            | None \<Rightarrow> Inr (Data v0, Metadata v0))"
  using assms by (auto simp: versions_of_def Read_def split: option.splits)

lemma Read_single_dirty:
  assumes "versions_of c blockID = [v]" and "\<not> Clean v"
  shows "Read c blockID = Inr (Data v, Metadata v)"
  using Read_versions_of [OF assms(1)] assms(2) by simp

lemma Read_last_clean:
  assumes "versions_of c blockID = vs @ [v]" and "Clean v"
  shows "Read c blockID = Inr (Data v, Metadata v)"
proof (cases vs)
  case Nil
  with Read_versions_of [of c blockID v "[]"] assms show ?thesis by simp
next
  case (Cons v0 vs')
  with Read_versions_of [of c blockID v0 "vs' @ [v]"] assms show ?thesis by simp
qed

lemma Write_then_goroutine:
  assumes "ledger_ok c" and "Write c now blockID d m = (c', None)"
  shows "versions_of (run_pending c' (length (pending c))) blockID =
           versions_of c blockID @
           [\<lparr>Version = int (length (versions_of c blockID)) + 1, Data = d, Metadata = m,
             Timestamp = now, Clean = True\<rparr>]"
proof (cases "head c = None")
  case True
  with assms(2) show ?thesis by (simp add: Write_no_head)
next
  case hd: False
  show ?thesis
  proof (cases "blocks c blockID")
    case None
    with hd assms(2) show ?thesis
      by (auto simp: Write_fresh run_pending_def goroutine_def versions_of_def)
  next
    case (Some a)
    let ?vs = "Versions (heap c a)"
    from assms(1) Some have n: "numbered ?vs" by (auto simp: ledger_ok_def)
    then have nv: "nextVersionOf (heap c a) = int (length ?vs) + 1"
      by (rule nextVersionOf_numbered)
    from Some hd assms(2) have c': "c' = c\<lparr>heap := (heap c)(a := (heap c a)\<lparr>Versions := ?vs @
                  [\<lparr>Version = int (length ?vs) + 1, Data = d, Metadata = m, Timestamp = now,
                    Clean = False\<rparr>]\<rparr>),
               pending := pending c @ [(a, int (length ?vs) + 1)]\<rparr>"
      by (simp add: Write_existing nv)
    show ?thesis
      unfolding c' using Some
      by (simp add: run_pending_def goroutine_def versions_of_def markClean_new [OF n])
  qed
qed

lemma chainData_None: "craqChain s = None \<Longrightarrow> chainData s blockID = None"
  by (simp add: chainData_def)

lemma chainData_Read:
  "craqChain s = Some c \<Longrightarrow> Read c blockID = Inr (d, m) \<Longrightarrow> chainData s blockID = d"
  by (simp add: chainData_def)

lemma ReadBlock_from:
  assumes "chainData s blockID = d \<or> chainData s blockID = None"
    and "LocalStorage_ReadBlock (localStorage s) blockID = (localStorage s, Inr (d, m))"
  shows "Service_ReadBlock s blockID = (s, Inr d)"
  using assms by (cases d) (auto simp: Service_ReadBlock_def split: option.splits)

text \<open>
  C4, as the code has it. A successful \<open>WriteBlock(id, data)\<close> followed by
  \<open>ReadBlock(id)\<close> returns exactly \<open>data\<close> when the chain held no version of the block
  (or no chain is configured), and also, whatever versions the block had, once the
  goroutine the write started has run. The sidecar just written must be readable,
  which matters when the read falls to the local storage (nil data, or no chain).
\<close>

theorem WriteBlock_ReadBlock_roundtrip:
  assumes w: "Service_WriteBlock sha256 now now' s blockID d = (s', None)"
    and r: "\<not> read_fails (disk (localStorage s)) (blockPathOf (localStorage s) blockID @ ''.meta'')"
  shows "((case craqChain s of None \<Rightarrow> True | Some c \<Rightarrow> versions_of c blockID = []) \<longrightarrow>
            Service_ReadBlock s' blockID = (s', Inr d)) \<and>
         (\<forall>c c'. craqChain s = Some c \<and> ledger_ok c \<and> craqChain s' = Some c' \<longrightarrow>
            Service_ReadBlock (s'\<lparr>craqChain := Some (run_pending c' (length (pending c)))\<rparr>) blockID =
              (s'\<lparr>craqChain := Some (run_pending c' (length (pending c)))\<rparr>, Inr d))"
proof -
  let ?m = "json_Marshal (NewBlockMetadata sha256 d 1 now)"
  from Service_WriteBlock_ok [OF w]
  have lw: "LocalStorage_WriteBlock (localStorage s) blockID d (Some ?m) = (localStorage s', None)"
    by simp
  have lr: "LocalStorage_ReadBlock (localStorage s') blockID = (localStorage s', Inr (d, Some ?m))"
    by (rule local_roundtrip [OF lw r])
  have 1: "Service_ReadBlock s' blockID = (s', Inr d)"
    if fresh: "case craqChain s of None \<Rightarrow> True | Some c \<Rightarrow> versions_of c blockID = []"
  proof (cases "craqChain s")
    case None
    with Service_WriteBlock_ok [OF w] have "craqChain s' = None" by simp
    then have "chainData s' blockID = None" by (rule chainData_None)
    with lr show ?thesis by (simp add: ReadBlock_from)
  next
    case (Some c)
    with Service_WriteBlock_ok [OF w] obtain c' where
      cw: "Write c now' blockID d (Some ?m) = (c', None)" and c': "craqChain s' = Some c'"
      by auto
    from fresh Some have "versions_of c blockID = []" by simp
    with Write_appends [OF cw]
    have "versions_of c' blockID =
            [\<lparr>Version = 1, Data = d, Metadata = Some ?m, Timestamp = now', Clean = False\<rparr>]"
      by simp
    then have "Read c' blockID = Inr (d, Some ?m)"
      using Read_single_dirty by fastforce
    with c' have "chainData s' blockID = d" by (rule chainData_Read)
    with lr show ?thesis by (simp add: ReadBlock_from)
  qed
  have 2: "Service_ReadBlock (s'\<lparr>craqChain := Some (run_pending c' (length (pending c)))\<rparr>) blockID =
              (s'\<lparr>craqChain := Some (run_pending c' (length (pending c)))\<rparr>, Inr d)"
    if "craqChain s = Some c" and ok: "ledger_ok c" and c': "craqChain s' = Some c'" for c c'
  proof -
    let ?s = "s'\<lparr>craqChain := Some (run_pending c' (length (pending c)))\<rparr>"
    from Service_WriteBlock_ok [OF w] that(1) c'
    have cw: "Write c now' blockID d (Some ?m) = (c', None)" by auto
    have "Read (run_pending c' (length (pending c))) blockID = Inr (d, Some ?m)"
      using Read_last_clean [OF Write_then_goroutine [OF ok cw]] by simp
    then have "chainData ?s blockID = d"
      by (simp add: chainData_def)
    moreover from lr have "LocalStorage_ReadBlock (localStorage ?s) blockID =
                            (localStorage ?s, Inr (d, Some ?m))"
      by simp
    ultimately show ?thesis by (simp add: ReadBlock_from)
  qed
  from 1 2 show ?thesis by blast
qed

lemma read_ok_demo:
  "\<not> read_fails (disk (localStorage demo_service)) (blockPathOf (localStorage demo_service) ''blk'' @ ''.meta'')"
  by (simp add: demo_service_def store0_def plain_disk_def)

theorem WriteBlock_ReadBlock_roundtrip_witness:
  "Service_WriteBlock stub_digest 10 11 demo_service ''blk'' (Some ''p1'') = (after_one_write, None) \<and>
   craqChain demo_service = Some one_node_chain \<and>
   versions_of one_node_chain ''blk'' = [] \<and>
   Service_ReadBlock after_one_write ''blk'' = (after_one_write, Inr (Some ''p1'')) \<and>
   Service_WriteBlock stub_digest 20 21 after_one_write ''blk'' (Some ''p2'') = (after_two_writes, None) \<and>
   (\<exists>c1 c2. craqChain after_one_write = Some c1 \<and> ledger_ok c1 \<and>
            craqChain after_two_writes = Some c2 \<and>
            snd (Service_ReadBlock
                   (after_two_writes\<lparr>craqChain := Some (run_pending c2 (length (pending c1)))\<rparr>)
                   ''blk'') = Inr (Some ''p2''))"
proof -
  have c: "craqChain demo_service = Some one_node_chain"
    by (simp add: demo_service_def)
  have e: "versions_of one_node_chain ''blk'' = []"
    by (simp add: versions_of_def one_node_chain_eq empty_chain_def)
  from WriteBlock_ReadBlock_roundtrip [OF first_write read_ok_demo] c e
  have 1: "Service_ReadBlock after_one_write ''blk'' = (after_one_write, Inr (Some ''p1''))"
    by simp
  from WriteBlock_step [OF c ledger_ok_one_node first_write] obtain c1 where
    c1: "craqChain after_one_write = Some c1" "ledger_ok c1"
    by blast
  from WriteBlock_step [OF c1 second_write] obtain c2 where
    c2: "craqChain after_two_writes = Some c2"
    by blast
  from Service_WriteBlock_ok [OF first_write]
  have "LocalStorage_WriteBlock (localStorage demo_service) ''blk'' (Some ''p1'')
          (Some (json_Marshal (NewBlockMetadata stub_digest (Some ''p1'') 1 10))) =
        (localStorage after_one_write, None)"
    by simp
  from WriteBlock_frame [OF this]
  have r1: "\<not> read_fails (disk (localStorage after_one_write))
               (blockPathOf (localStorage after_one_write) ''blk'' @ ''.meta'')"
    by (simp add: demo_service_def store0_def plain_disk_def)
  from WriteBlock_ReadBlock_roundtrip [OF second_write r1] c1 c2
  have "snd (Service_ReadBlock
                   (after_two_writes\<lparr>craqChain := Some (run_pending c2 (length (pending c1)))\<rparr>)
                   ''blk'') = Inr (Some ''p2'')"
    by simp
  with c1 c2 have 2: "\<exists>c1 c2. craqChain after_one_write = Some c1 \<and> ledger_ok c1 \<and>
            craqChain after_two_writes = Some c2 \<and>
            snd (Service_ReadBlock
                   (after_two_writes\<lparr>craqChain := Some (run_pending c2 (length (pending c1)))\<rparr>)
                   ''blk'') = Inr (Some ''p2'')"
    by blast
  from first_write second_write c e 1 2 show ?thesis by blast
qed

text \<open>
  The claim as the spec words it fails on a block that has an earlier version: the
  write of \<open>p1\<close> is marked clean, the write of \<open>p2\<close> succeeds and leaves version 2
  dirty, and the read that follows returns \<open>p1\<close>, the latest clean version.
\<close>

theorem WriteBlock_ReadBlock_roundtrip_counterexample:
  "snd (Service_WriteBlock stub_digest 10 11 demo_service ''blk'' (Some ''p1'')) = None \<and>
   chain_flags after_first_clean ''blk'' = [(1, True)] \<and>
   snd (Service_WriteBlock stub_digest 20 21 after_first_clean ''blk'' (Some ''p2'')) = None \<and>
   chain_flags after_second_write ''blk'' = [(1, True), (2, False)] \<and>
   snd (Service_ReadBlock after_second_write ''blk'') = Inr (Some ''p1'')"
  by code_simp

end
